theory Spec2Isabelle
  imports Main "HOL-Library.Finite_Map"
begin

section \<open>Faults and error values\<close>

text \<open>
  A Go run-time panic is a value of type \<open>panic\<close>; an \<open>error\<close> returned by a function is a
  value of type \<open>error\<close>, and the Go value \<open>nil\<close> of type \<open>error\<close> is \<open>None\<close>.
  \<open>errorString\<close> is what \<open>errors.New\<close> builds; \<open>EOF\<close> is \<open>io.EOF\<close>; the remaining
  constructors are the errors that the decoder, the file system and the RPC client hand back.
\<close>

datatype panic =
    IndexOutOfRange int nat
  | SliceBoundsOutOfRange int nat
  | MakesliceCapOutOfRange
  | NilPointerDereference

datatype error =
    errorString string
  | EOF
  | ErrUnexpectedEOF
  | SyntaxError
  | PathError
  | OpError
  | ServerError string
  | ErrShutdown

definition errors_New :: "string \<Rightarrow> error" where
  "errors_New msg = errorString msg"

section \<open>key.go\<close>

definition keyChar :: string where
  "keyChar = ''0123456789ABCDEFGHIJKLMNOPQRSTUVWXYZabcdefghijklmnopqrstuvwxyz''"

text \<open>
  The loop of \<open>genKey\<close> on the variables \<open>n\<close>, \<open>i\<close> and \<open>s\<close>. Go's \<open>int\<close> is modelled by
  \<open>int\<close>: inside the loop \<open>n\<close> is positive and only shrinks, so nothing overflows, and
  \<open>%\<close> and \<open>/\<close> on non-negative operands are \<open>mod\<close> and \<open>div\<close>. An index outside
  \<open>0 \<le> i < len(s)\<close> is the run-time panic of Go.
\<close>

function genKey_loop :: "int \<Rightarrow> int \<Rightarrow> string \<Rightarrow> panic + (int \<times> string)" where
  "genKey_loop n i s =
     (if n > 0 \<and> i \<ge> 0 then
        (let i' = i - 1;
             l = int (length keyChar);
             j = n mod l;
             n' = (n - j) div l
         in if \<not> (0 \<le> j \<and> j < int (length keyChar)) then
              Inl (IndexOutOfRange j (length keyChar))
            else if \<not> (0 \<le> i' \<and> i' < int (length s)) then
              Inl (IndexOutOfRange i' (length s))
            else genKey_loop n' i' (s[nat i' := keyChar ! nat j]))
      else Inr (i, s))"
  by pat_completeness auto
termination
  by (relation "measure (\<lambda>(n, i, s). nat i)") auto

declare genKey_loop.simps [simp del]

text \<open>
  \<open>make([]byte, 0, n)\<close> is a slice of length 0 (and capacity \<open>n\<close>); it panics for a negative
  capacity. (It also fails for a capacity too large to allocate; the model lets that
  allocation succeed.) The slice expression \<open>s[i:]\<close> panics unless \<open>0 \<le> i \<le> len(s)\<close>.
\<close>

definition genKey :: "int \<Rightarrow> panic + string" where
  "genKey n =
     (if n = 0 then Inr [keyChar ! 0]
      else if n < 0 then Inl MakesliceCapOutOfRange
      else
        (let s = [] :: string;
             i = int (length s)
         in case genKey_loop n i s of
              Inl p \<Rightarrow> Inl p
            | Inr (i', s') \<Rightarrow>
                if 0 \<le> i' \<and> i' \<le> int (length s') then Inr (drop (nat i') s')
                else Inl (SliceBoundsOutOfRange i' (length s'))))"

section \<open>store.go: the primary store\<close>

text \<open>
  A \<open>URLStore\<close> owns a Go map from short keys to long URLs and, when it was built with a
  file name, a buffered channel of records waiting for the background writer. The map is
  a finite map; the channel is the list of records buffered in it, oldest first, and a
  \<open>nil\<close> channel is \<open>None\<close>. The lock \<open>mu\<close> serialises the methods; the model runs one
  method at a time and leaves it out. The writer goroutine \<open>saveLoop\<close> and the text
  handed to \<open>log.Println\<close> are not part of the model.
\<close>

record Record =
  Key :: string
  URL :: string

record URLStore =
  urls :: "(string, string) fmap"
  save :: "Record list option"

definition saveQueueLength :: nat where
  "saveQueueLength = 1000"

text \<open>
  What a method call comes to: it returns (with the state it leaves and its results), it
  panics, or it stays blocked on a channel operation.
\<close>

datatype ('s, 'a) outcome =
    Returns 's 'a
  | Panics 's panic
  | Blocks 's

text \<open>
  \<open>Get(key, url *string) error\<close>: the third argument is the value \<open>*url\<close> holds before the
  call, the result carries the value it holds after it.
\<close>

definition URLStore_Get :: "URLStore \<Rightarrow> string \<Rightarrow> string \<Rightarrow> URLStore \<times> string \<times> error option" where
  "URLStore_Get s key url =
     (case fmlookup (urls s) key of
        Some u \<Rightarrow> (s, u, None)
      | None \<Rightarrow> (s, url, Some (errors_New ''key not found'')))"

definition URLStore_Set :: "URLStore \<Rightarrow> string \<Rightarrow> string \<Rightarrow> URLStore \<times> error option" where
  "URLStore_Set s shortURL longURL =
     (case fmlookup (urls s) shortURL of
        Some _ \<Rightarrow> (s, Some (errors_New ''shortURL already exists''))
      | None \<Rightarrow> (s\<lparr>urls := fmupd shortURL longURL (urls s)\<rparr>, None))"

definition URLStore_Delete :: "URLStore \<Rightarrow> string \<Rightarrow> URLStore" where
  "URLStore_Delete s shortURL = s\<lparr>urls := fmdrop shortURL (urls s)\<rparr>"

definition URLStore_Count :: "URLStore \<Rightarrow> int" where
  "URLStore_Count s = int (fcard (fmdom (urls s)))"

text \<open>
  A send on a buffered channel appends the record to the buffer; on a full buffer the
  sender blocks (\<open>None\<close>).
\<close>

definition chan_send :: "Record list \<Rightarrow> Record \<Rightarrow> Record list option" where
  "chan_send q r = (if length q < saveQueueLength then Some (q @ [r]) else None)"

text \<open>
  \<open>Put(url, key *string) error\<close>. The \<open>for\<close> loop has no bound, so it is a partial
  function: \<open>None\<close> is a call that loops forever. The result of a returning call carries
  the final \<open>*key\<close> and the returned error.
\<close>

partial_function (option) URLStore_Put ::
  "URLStore \<Rightarrow> string \<Rightarrow> (URLStore, string \<times> error option) outcome option" where
  "URLStore_Put s url =
     (case genKey (URLStore_Count s) of
        Inl p \<Rightarrow> Some (Panics s p)
      | Inr key \<Rightarrow>
          (case URLStore_Set s key url of
             (s', None) \<Rightarrow> Some (Returns s' (key, None))
           | (s', Some err) \<Rightarrow>
               (case save s' of
                  None \<Rightarrow> URLStore_Put s' url
                | Some q \<Rightarrow>
                    (case chan_send q \<lparr>Key = key, URL = url\<rparr> of
                       None \<Rightarrow> Some (Blocks s')
                     | Some q' \<Rightarrow> URLStore_Put (s'\<lparr>save := Some q'\<rparr>) url))))"

subsection \<open>The log file\<close>

text \<open>
  The log is read through \<open>json.Decoder\<close>, which is not code of this repository. A file is
  modelled by what successive calls of \<open>Decode\<close> make of it: a well-formed record, a
  malformed value, or a value cut off by the end of the file. At the end of the file
  \<open>Decode\<close> returns \<open>io.EOF\<close>. A file system is a finite map from the names of the files
  that \<open>os.Open\<close> can open to their content.
\<close>

datatype item = WellFormed Record | Malformed | Truncated

type_synonym filesystem = "(string, item list) fmap"

text \<open>The loop \<open>for err == nil\<close> of \<open>load\<close>; it ends with the first error of the decoder.\<close>

fun load_loop :: "item list \<Rightarrow> URLStore \<Rightarrow> URLStore \<times> error" where
  "load_loop [] s = (s, EOF)"
| "load_loop (WellFormed r # rest) s = load_loop rest (fst (URLStore_Set s (Key r) (URL r)))"
| "load_loop (Malformed # rest) s = (s, SyntaxError)"
| "load_loop (Truncated # rest) s = (s, ErrUnexpectedEOF)"

definition load :: "filesystem \<Rightarrow> URLStore \<Rightarrow> string \<Rightarrow> URLStore \<times> error option" where
  "load fs s filename =
     (case fmlookup fs filename of
        None \<Rightarrow> (s, Some PathError)
      | Some f \<Rightarrow>
          (case load_loop f s of
             (s', err) \<Rightarrow> if err = EOF then (s', None) else (s', Some err)))"

definition NewURLStore :: "filesystem \<Rightarrow> string \<Rightarrow> URLStore" where
  "NewURLStore fs filename =
     (let s = \<lparr>urls = fmempty, save = None\<rparr>
      in if filename \<noteq> '''' then
           (let s1 = s\<lparr>save := Some []\<rparr>
            in fst (load fs s1 filename))
         else s)"

section \<open>store.go: the proxy store\<close>

text \<open>
  \<open>rpc.Client\<close> is library code. A client is modelled by the peer it talks to: the state
  of the peer, the function by which the peer serves a call (service method, argument and
  state to a reply or an error, and the next state), and the list of the calls sent so
  far. A \<open>nil\<close> client is \<open>None\<close>; \<open>Call\<close> on it dereferences the nil pointer. When the
  call fails the reply variable keeps its value.
\<close>

type_synonym 'r service = "string \<Rightarrow> string \<Rightarrow> 'r \<Rightarrow> (error + string) \<times> 'r"

record 'r Client =
  service :: "'r service"
  peer :: 'r
  sent :: "(string \<times> string) list"

definition Client_Call ::
  "'r Client option \<Rightarrow> string \<Rightarrow> string \<Rightarrow> string \<Rightarrow> panic + ('r Client \<times> string \<times> error option)" where
  "Client_Call cl serviceMethod args reply =
     (case cl of
        None \<Rightarrow> Inl NilPointerDereference
      | Some c \<Rightarrow>
          (case service c serviceMethod args (peer c) of
             (res, p) \<Rightarrow>
               (let c' = c\<lparr>peer := p, sent := sent c @ [(serviceMethod, args)]\<rparr>
                in case res of
                     Inl err \<Rightarrow> Inr (c', reply, Some err)
                   | Inr v \<Rightarrow> Inr (c', v, None))))"

text \<open>
  The field \<open>urls\<close> of \<open>ProxyStore\<close> is \<open>urls_proxy\<close> here, \<open>urls\<close> being the field of
  \<open>URLStore\<close>. The \<open>URLStore\<close> it points to is reachable through the proxy alone.
\<close>

record 'r ProxyStore =
  urls_proxy :: URLStore
  client :: "'r Client option"

text \<open>
  \<open>rpc.DialHTTP\<close> is library code too: it returns a client and a nil error, or a nil client
  and the error of the failed dial. A network is a finite map from the addresses that
  can be dialled to the clients the dial yields.
\<close>

type_synonym 'r network = "(string, 'r Client) fmap"

definition DialHTTP :: "'r network \<Rightarrow> string \<Rightarrow> 'r Client option \<times> error option" where
  "DialHTTP net addr =
     (case fmlookup net addr of
        None \<Rightarrow> (None, Some OpError)
      | Some c \<Rightarrow> (Some c, None))"

definition NewProxyStore :: "'r network \<Rightarrow> filesystem \<Rightarrow> string \<Rightarrow> 'r ProxyStore" where
  "NewProxyStore net fs addr =
     (case DialHTTP net addr of
        (cl, err) \<Rightarrow> \<lparr>urls_proxy = NewURLStore fs '''', client = cl\<rparr>)"

definition ProxyStore_Get ::
  "'r ProxyStore \<Rightarrow> string \<Rightarrow> string \<Rightarrow> ('r ProxyStore, string \<times> error option) outcome" where
  "ProxyStore_Get s key url =
     (case URLStore_Get (urls_proxy s) key url of
        (u, url1, None) \<Rightarrow> Returns (s\<lparr>urls_proxy := u\<rparr>) (url1, None)
      | (u, url1, Some _) \<Rightarrow>
          (case Client_Call (client s) ''Store.Get'' key url1 of
             Inl p \<Rightarrow> Panics (s\<lparr>urls_proxy := u\<rparr>) p
           | Inr (c, url2, Some err) \<Rightarrow>
               Returns (s\<lparr>urls_proxy := u, client := Some c\<rparr>) (url2, Some err)
           | Inr (c, url2, None) \<Rightarrow>
               Returns (s\<lparr>urls_proxy := fst (URLStore_Set u key url2), client := Some c\<rparr>)
                 (url2, None)))"

definition ProxyStore_Put ::
  "'r ProxyStore \<Rightarrow> string \<Rightarrow> string \<Rightarrow> ('r ProxyStore, string \<times> error option) outcome" where
  "ProxyStore_Put s url key =
     (case Client_Call (client s) ''Store.Put'' url key of
        Inl p \<Rightarrow> Panics s p
      | Inr (c, key1, Some err) \<Rightarrow> Returns (s\<lparr>client := Some c\<rparr>) (key1, Some err)
      | Inr (c, key1, None) \<Rightarrow>
          Returns (s\<lparr>urls_proxy := fst (URLStore_Set (urls_proxy s) key1 url), client := Some c\<rparr>)
            (key1, None))"

text \<open>The calls a proxy has sent to its peer.\<close>

definition remote_calls :: "'r ProxyStore \<Rightarrow> (string \<times> string) list" where
  "remote_calls s = (case client s of None \<Rightarrow> [] | Some c \<Rightarrow> sent c)"

text \<open>Two peers to run the proxy against: one answers every call with the same reply, the
  other fails every call with the same error.\<close>

definition answers :: "string \<Rightarrow> unit service" where
  "answers v serviceMethod args p = (Inr v, p)"

definition refuses :: "error \<Rightarrow> unit service" where
  "refuses e serviceMethod args p = (Inl e, p)"

section \<open>store.go: \<open>All\<close> and the map it returns\<close>

text \<open>
  A Go map is a reference. Every other method reads and writes the map through the field
  \<open>urls\<close> only, so the store can be taken for the map's content, as above. \<open>All\<close> hands a
  map to its caller, so it is modelled on a heap of maps: an address is an index into the
  heap, \<open>make\<close> allocates the next address, and \<open>m[k] = v\<close> and \<open>delete(m, k)\<close> update
  the map at an address. The order in which \<open>range\<close> visits the entries is not specified
  by Go: it is an argument, constrained by \<open>ranges\<close>.
\<close>

type_synonym heap = "(string, string) fmap list"

definition make_map :: "heap \<Rightarrow> heap \<times> nat" where
  "make_map h = (h @ [fmempty], length h)"

definition map_assign :: "heap \<Rightarrow> nat \<Rightarrow> string \<Rightarrow> string \<Rightarrow> heap" where
  "map_assign h a k v = h[a := fmupd k v (h ! a)]"

definition map_delete :: "heap \<Rightarrow> nat \<Rightarrow> string \<Rightarrow> heap" where
  "map_delete h a k = h[a := fmdrop k (h ! a)]"

definition ranges :: "(string, string) fmap \<Rightarrow> string list \<Rightarrow> bool" where
  "ranges m ks \<longleftrightarrow> distinct ks \<and> fset_of_list ks = fmdom m"

text \<open>
  The loop \<open>for k, v := range s.urls { urls[k] = v }\<close>: \<open>a\<close> is the address of \<open>s.urls\<close>,
  \<open>r\<close> the address of the new map and the list the keys still to visit. A key that has
  left the map by the time it is reached is not visited.
\<close>

fun All_loop :: "heap \<Rightarrow> nat \<Rightarrow> nat \<Rightarrow> string list \<Rightarrow> heap" where
  "All_loop h a r [] = h"
| "All_loop h a r (k # ks) =
     (case fmlookup (h ! a) k of
        Some v \<Rightarrow> All_loop (map_assign h r k v) a r ks
      | None \<Rightarrow> All_loop h a r ks)"

text \<open>
  \<open>URLStore_All h a ks\<close>: \<open>a\<close> is the address in the field \<open>urls\<close> of the store and \<open>ks\<close>
  the keys of that map in the order \<open>range\<close> visits them; the result is the new heap and
  the address returned.
\<close>

definition URLStore_All :: "heap \<Rightarrow> nat \<Rightarrow> string list \<Rightarrow> heap \<times> nat" where
  "URLStore_All h a ks = (case make_map h of (h1, r) \<Rightarrow> (All_loop h1 a r ks, r))"

section \<open>Sequences of calls\<close>

text \<open>
  What a caller of the store can do after a key is bound: a sequence of calls of \<open>Put\<close> and
  \<open>Set\<close>. \<open>state_of\<close> is the store a call leaves behind, also when it panics (the HTTP
  server recovers the panic of a handler and goes on serving with the same store);
  \<open>after_calls\<close> is \<open>None\<close> when a call never ends.
\<close>

datatype call = CallPut string | CallSet string string

fun state_of :: "('s, 'a) outcome \<Rightarrow> 's" where
  "state_of (Returns s x) = s"
| "state_of (Panics s p) = s"
| "state_of (Blocks s) = s"

fun after_call :: "URLStore \<Rightarrow> call \<Rightarrow> URLStore option" where
  "after_call s (CallPut url) = map_option state_of (URLStore_Put s url)"
| "after_call s (CallSet shortURL longURL) = Some (fst (URLStore_Set s shortURL longURL))"

fun after_calls :: "URLStore \<Rightarrow> call list \<Rightarrow> URLStore option" where
  "after_calls s [] = Some s"
| "after_calls s (c # cs) =
     (case after_call s c of None \<Rightarrow> None | Some s' \<Rightarrow> after_calls s' cs)"

section \<open>Properties\<close>

subsection \<open>Key generation\<close>

lemma length_keyChar: "length keyChar = 62"
  by (simp add: keyChar_def)

lemma genKey_zero: "genKey 0 = Inr ''0''"
  by (simp add: genKey_def keyChar_def)

lemma genKey_loop_empty:
  "n > 0 \<Longrightarrow> genKey_loop n 0 [] = Inl (IndexOutOfRange (- 1) 0)"
  by (subst genKey_loop.simps) (simp add: length_keyChar Let_def)

lemma genKey_pos: "n > 0 \<Longrightarrow> genKey n = Inl (IndexOutOfRange (- 1) 0)"
  by (simp add: genKey_def genKey_loop_empty)

text \<open>
  C1. The specification has \<open>genKey n\<close> be the base-62 numeral of \<open>n\<close> for every \<open>n \<ge> 0\<close>.
  The code returns \<open>''0''\<close> for \<open>0\<close> only. For \<open>n = 1\<close> the buffer \<open>make([]byte, 0, n)\<close> has
  length 0, so \<open>i\<close> starts at 0, the first iteration decrements it to \<open>-1\<close> and the store
  \<open>s[i] = keyChar[j]\<close> panics with an index out of range: no key is returned.
\<close>

theorem genKey_one_panics: "genKey 0 = Inr ''0'' \<and> genKey 1 = Inl (IndexOutOfRange (- 1) 0)"
  by (simp add: genKey_zero genKey_pos)

subsection \<open>The primary store\<close>

lemma Count_zero_iff: "URLStore_Count s = 0 \<longleftrightarrow> urls s = fmempty"
  by (auto simp: URLStore_Count_def fmap_ext fmdom_notD)

lemma Count_nonneg: "0 \<le> URLStore_Count s"
  by (simp add: URLStore_Count_def)

text \<open>
  Run on its own, \<open>Put\<close> always ends: on an empty map the candidate key is \<open>''0''\<close> and \<open>Set\<close>
  accepts it; on any other map \<open>genKey\<close> panics before \<open>Set\<close> is reached.
\<close>

lemma Put_closed:
  "URLStore_Put s url =
     Some (if urls s = fmempty
           then Returns (s\<lparr>urls := fmupd ''0'' url (urls s)\<rparr>) (''0'', None)
           else Panics s (IndexOutOfRange (- 1) 0))"
proof (cases "urls s = fmempty")
  case True
  then have "URLStore_Count s = 0" by (simp add: Count_zero_iff)
  with True show ?thesis
    by (subst URLStore_Put.simps) (simp add: genKey_zero URLStore_Set_def)
next
  case False
  then have "URLStore_Count s \<noteq> 0" by (simp add: Count_zero_iff)
  with Count_nonneg [of s] have "0 < URLStore_Count s" by simp
  with False show ?thesis
    by (subst URLStore_Put.simps) (simp add: genKey_pos)
qed

text \<open>
  C2. If \<open>Put v\<close> returns the key \<open>k\<close>, it returns no error and \<open>Get k\<close> on the store it leaves
  returns \<open>v\<close> with no error; and on a store with an empty map \<open>Put ''http://example.com''\<close>
  returns the key \<open>''0''\<close>, after which \<open>Get ''0''\<close> returns \<open>''http://example.com''\<close>.
\<close>

theorem Put_Get_round_trip:
  "(URLStore_Put s v = Some (Returns s' (k, e)) \<longrightarrow>
      e = None \<and> URLStore_Get s' k u = (s', v, None)) \<and>
   (urls s0 = fmempty \<longrightarrow>
      (\<exists>s1. URLStore_Put s0 ''http://example.com'' = Some (Returns s1 (''0'', None)) \<and>
            URLStore_Get s1 ''0'' u = (s1, ''http://example.com'', None)))"
  by (auto simp: Put_closed URLStore_Get_def split: if_splits)

theorem Put_Get_round_trip_witness:
  "URLStore_Put \<lparr>urls = fmempty, save = Some []\<rparr> ''http://example.com''
     = Some (Returns \<lparr>urls = fmupd ''0'' ''http://example.com'' fmempty, save = Some []\<rparr>
              (''0'', None)) \<and>
   URLStore_Get \<lparr>urls = fmupd ''0'' ''http://example.com'' fmempty, save = Some []\<rparr> ''0'' ''''
     = (\<lparr>urls = fmupd ''0'' ''http://example.com'' fmempty, save = Some []\<rparr>,
        ''http://example.com'', None)"
proof -
  have p: "URLStore_Put \<lparr>urls = fmempty, save = Some []\<rparr> ''http://example.com''
     = Some (Returns \<lparr>urls = fmupd ''0'' ''http://example.com'' fmempty, save = Some []\<rparr>
              (''0'', None))"
    by (subst URLStore_Put.simps)
      (simp add: URLStore_Count_def genKey_def keyChar_def URLStore_Set_def)
  from Put_Get_round_trip [of "\<lparr>urls = fmempty, save = Some []\<rparr>" "''http://example.com''"
      "\<lparr>urls = fmupd ''0'' ''http://example.com'' fmempty, save = Some []\<rparr>" "''0''" None "''''"] p
  show ?thesis by simp
qed

text \<open>
  C3. The specification has a committed \<open>Put\<close> on a store with a save channel enqueue one
  record with the returned key and the stored value. On the store built from a missing
  log file, \<open>Put ''http://example.com''\<close> commits the entry under the key \<open>''0''\<close> and
  returns, and the channel is as empty as before: the loop leaves through \<open>break\<close> as soon
  as \<open>Set\<close> succeeds, and the send sits behind it, on the path of a failed \<open>Set\<close>.
\<close>

theorem Put_commit_enqueues_nothing:
  "URLStore_Put (NewURLStore fmempty ''file/store.json'') ''http://example.com''
     = Some (Returns \<lparr>urls = fmupd ''0'' ''http://example.com'' fmempty, save = Some []\<rparr>
              (''0'', None))"
  by (subst URLStore_Put.simps)
    (simp add: NewURLStore_def load_def Let_def URLStore_Count_def genKey_def keyChar_def
      URLStore_Set_def)

lemma Set_keeps:
  "fmlookup (urls s) k = Some v \<Longrightarrow> fmlookup (urls (fst (URLStore_Set s k' v'))) k = Some v"
  by (auto simp: URLStore_Set_def split: option.splits)

lemma after_call_keeps:
  assumes "fmlookup (urls s) k = Some v"
  shows "\<exists>s'. after_call s c = Some s' \<and> fmlookup (urls s') k = Some v"
proof (cases c)
  case (CallPut url)
  from assms have "urls s \<noteq> fmempty" by auto
  with assms CallPut show ?thesis by (simp add: Put_closed)
next
  case (CallSet a b)
  with assms show ?thesis by (simp add: Set_keeps)
qed

lemma after_calls_keeps:
  "fmlookup (urls s) k = Some v \<Longrightarrow>
     \<exists>s'. after_calls s cs = Some s' \<and> fmlookup (urls s') k = Some v"
proof (induction cs arbitrary: s)
  case Nil
  then show ?case by simp
next
  case (Cons c cs)
  from after_call_keeps [OF Cons.prems, of c] obtain s1
    where s1: "after_call s c = Some s1" "fmlookup (urls s1) k = Some v" by blast
  from Cons.IH [OF s1(2)] s1(1) show ?case by simp
qed

text \<open>
  C4. When the key \<open>k\<close> is bound to \<open>v\<close>, \<open>Set k v'\<close> returns the error
  \<open>shortURL already exists\<close> and leaves the whole store as it was; and after any sequence
  of calls of \<open>Put\<close> and \<open>Set\<close> (each of which ends) \<open>Get k\<close> still returns \<open>v\<close> with no error.
\<close>

theorem Set_rejects_overwrite:
  assumes "fmlookup (urls s) k = Some v"
  shows "URLStore_Set s k v' = (s, Some (errors_New ''shortURL already exists'')) \<and>
         (\<exists>s'. after_calls s cs = Some s' \<and> URLStore_Get s' k u = (s', v, None))"
proof -
  from assms have "URLStore_Set s k v' = (s, Some (errors_New ''shortURL already exists''))"
    by (simp add: URLStore_Set_def)
  moreover from after_calls_keeps [OF assms, of cs] obtain s'
    where "after_calls s cs = Some s'" "fmlookup (urls s') k = Some v" by blast
  then have "\<exists>s'. after_calls s cs = Some s' \<and> URLStore_Get s' k u = (s', v, None)"
    by (simp add: URLStore_Get_def)
  ultimately show ?thesis by simp
qed

theorem Set_rejects_overwrite_witness:
  "URLStore_Set \<lparr>urls = fmupd ''0'' ''a.com'' fmempty, save = None\<rparr> ''0'' ''b.com''
     = (\<lparr>urls = fmupd ''0'' ''a.com'' fmempty, save = None\<rparr>,
        Some (errors_New ''shortURL already exists'')) \<and>
   (\<exists>s'. after_calls \<lparr>urls = fmupd ''0'' ''a.com'' fmempty, save = None\<rparr>
            [CallSet ''0'' ''b.com'', CallPut ''c.com'', CallSet ''1'' ''d.com''] = Some s' \<and>
         URLStore_Get s' ''0'' '''' = (s', ''a.com'', None))"
proof -
  have h: "fmlookup (urls \<lparr>urls = fmupd ''0'' ''a.com'' fmempty, save = None\<rparr>) ''0''
             = Some ''a.com''"
    by simp
  show ?thesis by (rule Set_rejects_overwrite [OF h])
qed

text \<open>
  C8. \<open>Get\<close> on an absent key returns the error \<open>key not found\<close>, writes nothing to the
  output and leaves the store unchanged; \<open>Get\<close> on a key bound to \<open>u\<close> writes \<open>u\<close> to the
  output and returns no error.
\<close>

theorem Get_absent_present:
  "(fmlookup (urls s) k = None \<longrightarrow>
      URLStore_Get s k u0 = (s, u0, Some (errors_New ''key not found''))) \<and>
   (fmlookup (urls s) k = Some u \<longrightarrow> URLStore_Get s k u0 = (s, u, None))"
  by (simp add: URLStore_Get_def)

theorem Get_absent_present_witness:
  "URLStore_Get \<lparr>urls = fmupd ''1'' ''b.com'' fmempty, save = None\<rparr> ''2'' ''''
     = (\<lparr>urls = fmupd ''1'' ''b.com'' fmempty, save = None\<rparr>, '''',
        Some (errors_New ''key not found'')) \<and>
   URLStore_Get \<lparr>urls = fmupd ''1'' ''b.com'' fmempty, save = None\<rparr> ''1'' ''''
     = (\<lparr>urls = fmupd ''1'' ''b.com'' fmempty, save = None\<rparr>, ''b.com'', None)"
  using Get_absent_present
      [of "\<lparr>urls = fmupd ''1'' ''b.com'' fmempty, save = None\<rparr>" "''2''" "''''" "''b.com''"]
    Get_absent_present
      [of "\<lparr>urls = fmupd ''1'' ''b.com'' fmempty, save = None\<rparr>" "''1''" "''''" "''b.com''"]
  by simp

subsection \<open>Loading the log\<close>

lemma load_loop_lookup:
  "t \<noteq> [] \<Longrightarrow> (\<forall>r. hd t \<noteq> WellFormed r) \<Longrightarrow>
   fmlookup (urls (fst (load_loop (map WellFormed rs @ t) s))) k =
     (case fmlookup (urls s) k of
        Some v \<Rightarrow> Some v
      | None \<Rightarrow> map_of (map (\<lambda>r. (Key r, URL r)) rs) k)"
proof (induction rs arbitrary: s)
  case Nil
  then show ?case by (cases t; cases "hd t") (auto split: option.splits)
next
  case (Cons r rs)
  then show ?case
    by (auto simp: URLStore_Set_def split: option.splits)
qed

lemma load_loop_error:
  "snd (load_loop (map WellFormed rs @ [t]) s) =
     (case t of WellFormed r \<Rightarrow> EOF | Malformed \<Rightarrow> SyntaxError | Truncated \<Rightarrow> ErrUnexpectedEOF)"
  by (induction rs arbitrary: s) (auto split: item.splits)

text \<open>Of the records of a key, the first one is kept.\<close>

lemma load_loop_urls:
  assumes "t = Malformed \<or> t = Truncated" and "urls s = fmempty"
  shows "urls (fst (load_loop (map WellFormed rs @ [t]) s)) =
           fmap_of_list (map (\<lambda>r. (Key r, URL r)) rs)"
proof (rule fmap_ext)
  fix k
  from assms(1) have "\<forall>r. hd [t] \<noteq> WellFormed r" by auto
  from load_loop_lookup [OF _ this, of rs s k] assms(2)
  show "fmlookup (urls (fst (load_loop (map WellFormed rs @ [t]) s))) k =
        fmlookup (fmap_of_list (map (\<lambda>r. (Key r, URL r)) rs)) k"
    by (simp add: fmlookup_of_list)
qed

lemma fcard_fmap_of_list:
  "distinct (map fst kvs) \<Longrightarrow> fcard (fmdom (fmap_of_list kvs)) = length kvs"
  by (simp add: fcard.rep_eq fset_of_list.rep_eq distinct_card [of "map fst kvs", simplified])

lemma map_of_records:
  assumes d: "distinct (map Key rs)"
  shows "map_of (map (\<lambda>r. (Key r, URL r)) rs) k = Some v \<longleftrightarrow> \<lparr>Key = k, URL = v\<rparr> \<in> set rs"
proof -
  have "map fst (map (\<lambda>r. (Key r, URL r)) rs) = map Key rs" by (simp add: comp_def)
  with d have "distinct (map fst (map (\<lambda>r. (Key r, URL r)) rs))" by (simp only:)
  then have "map_of (map (\<lambda>r. (Key r, URL r)) rs) k = Some v
      \<longleftrightarrow> (k, v) \<in> set (map (\<lambda>r. (Key r, URL r)) rs)"
    by (rule map_of_eq_Some_iff)
  also have "\<dots> \<longleftrightarrow> \<lparr>Key = k, URL = v\<rparr> \<in> set rs"
  proof
    assume "(k, v) \<in> set (map (\<lambda>r. (Key r, URL r)) rs)"
    then obtain r where "r \<in> set rs" "Key r = k" "URL r = v" by auto
    moreover then have "r = \<lparr>Key = k, URL = v\<rparr>" by simp
    ultimately show "\<lparr>Key = k, URL = v\<rparr> \<in> set rs" by simp
  next
    assume "\<lparr>Key = k, URL = v\<rparr> \<in> set rs"
    then have "(\<lambda>r. (Key r, URL r)) \<lparr>Key = k, URL = v\<rparr> \<in> set (map (\<lambda>r. (Key r, URL r)) rs)"
      by (simp only: set_map image_eqI)
    then show "(k, v) \<in> set (map (\<lambda>r. (Key r, URL r)) rs)" by simp
  qed
  finally show ?thesis .
qed

text \<open>
  C5, as stated, fails on a log that holds two records of one key: \<open>Set\<close> rejects the
  second, so a log of two well-formed records and a truncated third yields a store of one
  entry, bound to the URL of the first record.
\<close>

theorem load_duplicate_keys:
  "URLStore_Count (NewURLStore
      (fmupd ''file/store.json''
         [WellFormed \<lparr>Key = ''0'', URL = ''a.com''\<rparr>,
          WellFormed \<lparr>Key = ''0'', URL = ''b.com''\<rparr>, Truncated]
         fmempty) ''file/store.json'') = 1 \<and>
   fmlookup (urls (NewURLStore
      (fmupd ''file/store.json''
         [WellFormed \<lparr>Key = ''0'', URL = ''a.com''\<rparr>,
          WellFormed \<lparr>Key = ''0'', URL = ''b.com''\<rparr>, Truncated]
         fmempty) ''file/store.json'')) ''0'' = Some ''a.com''"
  by (simp add: NewURLStore_def load_def Let_def URLStore_Set_def URLStore_Count_def
      fcard_finsert_if)

text \<open>
  C5, amended. For a log file (its name is not empty) of \<open>N\<close> well-formed records with
  pairwise distinct keys followed by a malformed or truncated record, \<open>load\<close> returns the
  error of the decoder, and \<open>NewURLStore\<close>, which only logs it, returns a store of \<open>N\<close>
  entries, which are exactly the records. For a file that cannot be opened \<open>load\<close> returns
  the error of \<open>os.Open\<close> and \<open>NewURLStore\<close> returns a store with an empty map.
\<close>

theorem load_truncated_tail:
  "(filename \<noteq> '''' \<and> (t = Malformed \<or> t = Truncated) \<and>
    fmlookup fs filename = Some (map WellFormed rs @ [t]) \<and> distinct (map Key rs) \<longrightarrow>
      snd (load fs \<lparr>urls = fmempty, save = Some []\<rparr> filename) =
        Some (if t = Malformed then SyntaxError else ErrUnexpectedEOF) \<and>
      URLStore_Count (NewURLStore fs filename) = int (length rs) \<and>
      (\<forall>k v. fmlookup (urls (NewURLStore fs filename)) k = Some v
               \<longleftrightarrow> \<lparr>Key = k, URL = v\<rparr> \<in> set rs)) \<and>
   (fmlookup fs filename = None \<longrightarrow>
      snd (load fs \<lparr>urls = fmempty, save = Some []\<rparr> filename) = Some PathError \<and>
      urls (NewURLStore fs filename) = fmempty)"
proof (intro conjI impI allI)
  assume a: "filename \<noteq> '''' \<and> (t = Malformed \<or> t = Truncated) \<and>
    fmlookup fs filename = Some (map WellFormed rs @ [t]) \<and> distinct (map Key rs)"
  then have u: "urls (NewURLStore fs filename) = fmap_of_list (map (\<lambda>r. (Key r, URL r)) rs)"
    using load_loop_urls [of t "\<lparr>urls = fmempty, save = Some []\<rparr>" rs]
    by (auto simp: NewURLStore_def load_def Let_def split: prod.splits)
  have "map fst (map (\<lambda>r. (Key r, URL r)) rs) = map Key rs" by (simp add: comp_def)
  with a have d: "distinct (map fst (map (\<lambda>r. (Key r, URL r)) rs))" by (simp only:)
  from fcard_fmap_of_list [OF d] u
  show "URLStore_Count (NewURLStore fs filename) = int (length rs)"
    by (simp add: URLStore_Count_def)
  from a load_loop_error [of rs t "\<lparr>urls = fmempty, save = Some []\<rparr>"]
  show "snd (load fs \<lparr>urls = fmempty, save = Some []\<rparr> filename) =
        Some (if t = Malformed then SyntaxError else ErrUnexpectedEOF)"
    by (auto simp: load_def split: prod.splits)
  fix k v
  from a u show "fmlookup (urls (NewURLStore fs filename)) k = Some v
               \<longleftrightarrow> \<lparr>Key = k, URL = v\<rparr> \<in> set rs"
    by (simp add: fmlookup_of_list map_of_records)
next
  assume n: "fmlookup fs filename = None"
  then show "urls (NewURLStore fs filename) = fmempty"
    by (simp add: NewURLStore_def load_def Let_def)
  from n show "snd (load fs \<lparr>urls = fmempty, save = Some []\<rparr> filename) = Some PathError"
    by (simp add: load_def)
qed

theorem load_truncated_tail_witness:
  "URLStore_Count (NewURLStore
      (fmupd ''file/store.json''
         [WellFormed \<lparr>Key = ''0'', URL = ''a.com''\<rparr>,
          WellFormed \<lparr>Key = ''1'', URL = ''b.com''\<rparr>, Truncated]
         fmempty) ''file/store.json'') = 2 \<and>
   fmlookup (urls (NewURLStore
      (fmupd ''file/store.json''
         [WellFormed \<lparr>Key = ''0'', URL = ''a.com''\<rparr>,
          WellFormed \<lparr>Key = ''1'', URL = ''b.com''\<rparr>, Truncated]
         fmempty) ''file/store.json'')) ''1'' = Some ''b.com'' \<and>
   urls (NewURLStore fmempty ''file/store.json'') = fmempty"
proof -
  let ?rs = "[\<lparr>Key = ''0'', URL = ''a.com''\<rparr>, \<lparr>Key = ''1'', URL = ''b.com''\<rparr>]"
  let ?fs = "fmupd ''file/store.json'' (map WellFormed ?rs @ [Truncated]) fmempty"
  have h: "''file/store.json'' \<noteq> '''' \<and> (Truncated = Malformed \<or> Truncated = Truncated) \<and>
    fmlookup ?fs ''file/store.json'' = Some (map WellFormed ?rs @ [Truncated]) \<and>
    distinct (map Key ?rs)"
    by simp
  have e: "fmlookup (fmempty :: filesystem) ''file/store.json'' = None" by simp
  from load_truncated_tail [of "''file/store.json''" Truncated ?fs ?rs] h
  have 1: "URLStore_Count (NewURLStore ?fs ''file/store.json'') = int (length ?rs)"
    and 2: "fmlookup (urls (NewURLStore ?fs ''file/store.json'')) ''1'' = Some ''b.com''
               \<longleftrightarrow> \<lparr>Key = ''1'', URL = ''b.com''\<rparr> \<in> set ?rs"
    by blast+
  from load_truncated_tail [of "''file/store.json''" Truncated fmempty "[]"] e
  have 3: "urls (NewURLStore fmempty ''file/store.json'') = fmempty" by blast
  from 1 2 3 show ?thesis by simp
qed

subsection \<open>The map returned by \<open>All\<close>\<close>

lemma All_loop_other: "b \<noteq> r \<Longrightarrow> All_loop h a r ks ! b = h ! b"
  by (induction h a r ks rule: All_loop.induct) (auto simp: map_assign_def split: option.splits)

lemma All_loop_lookup:
  "a \<noteq> r \<Longrightarrow> r < length h \<Longrightarrow>
   fmlookup (All_loop h a r ks ! r) k =
     (if k \<in> set ks \<and> fmlookup (h ! a) k \<noteq> None then fmlookup (h ! a) k
      else fmlookup (h ! r) k)"
proof (induction h a r ks rule: All_loop.induct)
  case (1 h a r)
  then show ?case by simp
next
  case (2 h a r k' ks)
  show ?case
  proof (cases "fmlookup (h ! a) k'")
    case None
    with 2 show ?thesis by auto
  next
    case (Some v)
    with 2 have "fmlookup (All_loop (map_assign h r k' v) a r ks ! r) k =
      (if k \<in> set ks \<and> fmlookup (map_assign h r k' v ! a) k \<noteq> None
       then fmlookup (map_assign h r k' v ! a) k else fmlookup (map_assign h r k' v ! r) k)"
      by (simp add: map_assign_def)
    with Some 2 show ?thesis by (auto simp: map_assign_def)
  qed
qed

lemma All_copy:
  assumes "a < length h" and "ranges (h ! a) ks"
  shows "All_loop (h @ [fmempty]) a (length h) ks ! length h = h ! a"
proof (rule fmap_ext)
  fix k
  from assms(2) have "fset_of_list ks = fmdom (h ! a)" by (simp add: ranges_def)
  then have "k |\<in>| fset_of_list ks \<longleftrightarrow> k |\<in>| fmdom (h ! a)" by simp
  then have dom: "k \<in> set ks \<longleftrightarrow> k |\<in>| fmdom (h ! a)"
    by (simp only: fset_of_list_elem)
  from assms(1) have "fmlookup (All_loop (h @ [fmempty]) a (length h) ks ! length h) k =
      (if k \<in> set ks \<and> fmlookup (h ! a) k \<noteq> None then fmlookup (h ! a) k else None)"
    by (subst All_loop_lookup) (auto simp: nth_append)
  with dom show "fmlookup (All_loop (h @ [fmempty]) a (length h) ks ! length h) k
      = fmlookup (h ! a) k"
    by (auto simp: fmlookup_dom_iff)
qed

text \<open>
  C9. Let the field \<open>urls\<close> of the store hold the address \<open>a\<close> of a map on the heap, and let
  \<open>range\<close> visit the keys of that map in any order \<open>ks\<close>. Then \<open>All\<close> returns a new address
  \<open>r\<close>, different from \<open>a\<close>, whose map is equal to the store's map; \<open>All\<close> leaves every map
  that was on the heap as it was; and an assignment to or a deletion from the returned
  map leaves the store's map as it was.
\<close>

theorem All_returns_copy:
  assumes "a < length h" and "ranges (h ! a) ks"
  shows "case URLStore_All h a ks of (h', r) \<Rightarrow>
           r = length h \<and> r \<noteq> a \<and> h' ! r = h ! a \<and>
           (\<forall>b < length h. h' ! b = h ! b) \<and>
           (\<forall>k v. map_assign h' r k v ! a = h ! a) \<and>
           (\<forall>k. map_delete h' r k ! a = h ! a)"
  using assms
  by (auto simp: URLStore_All_def make_map_def All_copy All_loop_other nth_append
      map_assign_def map_delete_def)

theorem All_returns_copy_witness:
  "case URLStore_All [fmupd ''0'' ''a.com'' (fmupd ''1'' ''b.com'' fmempty)] 0 [''1'', ''0''] of
     (h', r) \<Rightarrow> r = 1 \<and> h' ! r = fmupd ''0'' ''a.com'' (fmupd ''1'' ''b.com'' fmempty) \<and>
        map_assign h' r ''2'' ''c.com'' ! 0 = fmupd ''0'' ''a.com'' (fmupd ''1'' ''b.com'' fmempty) \<and>
        map_delete h' r ''0'' ! 0 = fmupd ''0'' ''a.com'' (fmupd ''1'' ''b.com'' fmempty)"
proof -
  have r: "ranges ([fmupd ''0'' ''a.com'' (fmupd ''1'' ''b.com'' fmempty)] ! 0) [''1'', ''0'']"
    by (auto simp: ranges_def)
  have l: "(0::nat) < length [fmupd ''0'' ''a.com'' (fmupd ''1'' ''b.com'' fmempty)]" by simp
  from All_returns_copy [OF l r] show ?thesis by (auto split: prod.splits)
qed

subsection \<open>The proxy store\<close>

lemma NewURLStore_empty: "NewURLStore fs '''' = \<lparr>urls = fmempty, save = None\<rparr>"
  by (simp add: NewURLStore_def)

lemma ProxyStore_Get_hit:
  "fmlookup (urls (urls_proxy s)) k = Some v \<Longrightarrow> ProxyStore_Get s k u0 = Returns s (v, None)"
  by (simp add: ProxyStore_Get_def URLStore_Get_def)

lemma ProxyStore_Get_miss:
  assumes "fmlookup (urls (urls_proxy s)) k = None" and "client s = Some c"
    and "service c ''Store.Get'' k (peer c) = (res, p)"
  shows "ProxyStore_Get s k u0 =
    (case res of
       Inl err \<Rightarrow>
         Returns (s\<lparr>client := Some (c\<lparr>peer := p, sent := sent c @ [(''Store.Get'', k)]\<rparr>)\<rparr>)
           (u0, Some err)
     | Inr v \<Rightarrow>
         Returns (s\<lparr>urls_proxy := (urls_proxy s)\<lparr>urls := fmupd k v (urls (urls_proxy s))\<rparr>,
                    client := Some (c\<lparr>peer := p, sent := sent c @ [(''Store.Get'', k)]\<rparr>)\<rparr>)
           (v, None))"
  using assms
  by (simp add: ProxyStore_Get_def URLStore_Get_def Client_Call_def URLStore_Set_def Let_def
      split: sum.splits)

text \<open>
  C6, as stated, fails on a proxy whose client is \<open>nil\<close>, which is what \<open>NewProxyStore\<close>
  builds when the dial fails: a \<open>Get\<close> of a key that is not cached sends no call and
  returns nothing, it panics on the nil client.
\<close>

theorem ProxyStore_Get_nil_client:
  "ProxyStore_Get
      \<lparr>urls_proxy = \<lparr>urls = fmempty, save = None\<rparr>, client = (None :: unit Client option)\<rparr>
      ''0'' '''' =
    Panics \<lparr>urls_proxy = \<lparr>urls = fmempty, save = None\<rparr>, client = None\<rparr> NilPointerDereference"
  by (simp add: ProxyStore_Get_def URLStore_Get_def Client_Call_def)

text \<open>
  C6, amended. A \<open>Get\<close> of a cached key returns the cached value and leaves the proxy,
  and with it the list of calls sent, as it was. On a proxy whose client is not \<open>nil\<close>, a
  \<open>Get\<close> of a key that is not cached returns after sending exactly one call, \<open>Store.Get\<close>
  of that key; when the peer answers it with a value, \<open>Get\<close> returns that value with no
  error and binds the key to it in the cache, and a second \<open>Get\<close> of the key returns the
  value and leaves the proxy, and the list of calls sent, as it was.
\<close>

theorem ProxyStore_Get_cache:
  "(fmlookup (urls (urls_proxy s)) k = Some v \<longrightarrow>
      ProxyStore_Get s k u0 = Returns s (v, None)) \<and>
   (fmlookup (urls (urls_proxy s)) k = None \<and> client s = Some c \<longrightarrow>
      (\<exists>s' res. ProxyStore_Get s k u0 = Returns s' res \<and>
         remote_calls s' = remote_calls s @ [(''Store.Get'', k)] \<and>
         (\<forall>w p. service c ''Store.Get'' k (peer c) = (Inr w, p) \<longrightarrow>
            res = (w, None) \<and> fmlookup (urls (urls_proxy s')) k = Some w \<and>
            ProxyStore_Get s' k u1 = Returns s' (w, None))))"
proof (intro conjI impI)
  assume "fmlookup (urls (urls_proxy s)) k = Some v"
  then show "ProxyStore_Get s k u0 = Returns s (v, None)" by (rule ProxyStore_Get_hit)
next
  assume a: "fmlookup (urls (urls_proxy s)) k = None \<and> client s = Some c"
  obtain res p where r: "service c ''Store.Get'' k (peer c) = (res, p)" by force
  show "\<exists>s' res. ProxyStore_Get s k u0 = Returns s' res \<and>
         remote_calls s' = remote_calls s @ [(''Store.Get'', k)] \<and>
         (\<forall>w p. service c ''Store.Get'' k (peer c) = (Inr w, p) \<longrightarrow>
            res = (w, None) \<and> fmlookup (urls (urls_proxy s')) k = Some w \<and>
            ProxyStore_Get s' k u1 = Returns s' (w, None))"
  proof (cases res)
    case (Inl err)
    with a r ProxyStore_Get_miss [of s k c res p u0] show ?thesis
      by (simp add: remote_calls_def)
  next
    case (Inr w)
    with a r ProxyStore_Get_miss [of s k c res p u0] show ?thesis
      by (simp add: remote_calls_def ProxyStore_Get_hit)
  qed
qed

theorem ProxyStore_Get_cache_witness:
  "ProxyStore_Get
      \<lparr>urls_proxy = \<lparr>urls = fmupd ''1'' ''b.com'' fmempty, save = None\<rparr>,
       client = Some \<lparr>service = refuses ErrShutdown, peer = (), sent = []\<rparr>\<rparr> ''1'' ''''
    = Returns
      \<lparr>urls_proxy = \<lparr>urls = fmupd ''1'' ''b.com'' fmempty, save = None\<rparr>,
       client = Some \<lparr>service = refuses ErrShutdown, peer = (), sent = []\<rparr>\<rparr> (''b.com'', None) \<and>
   (\<exists>s'. ProxyStore_Get
      \<lparr>urls_proxy = \<lparr>urls = fmempty, save = None\<rparr>,
       client = Some \<lparr>service = answers ''b.com'', peer = (), sent = []\<rparr>\<rparr> ''1'' ''''
       = Returns s' (''b.com'', None) \<and>
     remote_calls s' = [(''Store.Get'', ''1'')] \<and>
     fmlookup (urls (urls_proxy s')) ''1'' = Some ''b.com'' \<and>
     ProxyStore_Get s' ''1'' '''' = Returns s' (''b.com'', None))"
proof -
  let ?hit = "\<lparr>urls_proxy = \<lparr>urls = fmupd ''1'' ''b.com'' fmempty, save = None\<rparr>,
       client = Some \<lparr>service = refuses ErrShutdown, peer = (), sent = []\<rparr>\<rparr>"
  let ?c = "\<lparr>service = answers ''b.com'', peer = (), sent = []\<rparr>"
  let ?miss = "\<lparr>urls_proxy = \<lparr>urls = fmempty, save = None\<rparr>, client = Some ?c\<rparr>"
  have 1: "fmlookup (urls (urls_proxy ?hit)) ''1'' = Some ''b.com''" by simp
  have 2: "fmlookup (urls (urls_proxy ?miss)) ''1'' = None \<and> client ?miss = Some ?c" by simp
  have 3: "service ?c ''Store.Get'' ''1'' (peer ?c) = (Inr ''b.com'', ())"
    by (simp add: answers_def)
  have 4: "remote_calls ?miss = []" by (simp add: remote_calls_def)
  from ProxyStore_Get_cache [of ?hit "''1''" "''b.com''" "''''"] 1
  have hit: "ProxyStore_Get ?hit ''1'' '''' = Returns ?hit (''b.com'', None)" by blast
  from ProxyStore_Get_cache [of ?miss "''1''" _ "''''" ?c "''''"] 2
  obtain s' res where m: "ProxyStore_Get ?miss ''1'' '''' = Returns s' res"
    "remote_calls s' = remote_calls ?miss @ [(''Store.Get'', ''1'')]"
    "\<forall>w p. service ?c ''Store.Get'' ''1'' (peer ?c) = (Inr w, p) \<longrightarrow>
            res = (w, None) \<and> fmlookup (urls (urls_proxy s')) ''1'' = Some w \<and>
            ProxyStore_Get s' ''1'' '''' = Returns s' (w, None)"
    by blast
  from m(3) 3 have "res = (''b.com'', None) \<and> fmlookup (urls (urls_proxy s')) ''1'' = Some ''b.com'' \<and>
            ProxyStore_Get s' ''1'' '''' = Returns s' (''b.com'', None)"
    by blast
  with m(1,2) 4 hit show ?thesis by auto
qed

lemma ProxyStore_Put_connected:
  assumes "client s = Some c" and "service c ''Store.Put'' v (peer c) = (res, p)"
  shows "ProxyStore_Put s v k0 =
    (case res of
       Inl err \<Rightarrow>
         Returns (s\<lparr>client := Some (c\<lparr>peer := p, sent := sent c @ [(''Store.Put'', v)]\<rparr>)\<rparr>)
           (k0, Some err)
     | Inr k \<Rightarrow>
         Returns (s\<lparr>urls_proxy := fst (URLStore_Set (urls_proxy s) k v),
                    client := Some (c\<lparr>peer := p, sent := sent c @ [(''Store.Put'', v)]\<rparr>)\<rparr>)
           (k, None))"
  using assms
  by (simp add: ProxyStore_Put_def Client_Call_def Let_def split: sum.splits)

text \<open>
  C7, as stated, fails in two places. On a proxy whose client is \<open>nil\<close>, \<open>Put\<close> sends no
  call and panics. On a proxy that has the key \<open>''0''\<close> cached with \<open>''a.com''\<close> and whose
  peer answers \<open>Store.Put\<close> of \<open>''c.com''\<close> with the key \<open>''0''\<close>, \<open>Put\<close> returns \<open>''0''\<close> and the
  cache keeps \<open>''a.com''\<close>: the pair that came back is not cached, \<open>Set\<close> having rejected it.
\<close>

theorem ProxyStore_Put_nil_client_stale_cache:
  "ProxyStore_Put
      \<lparr>urls_proxy = \<lparr>urls = fmempty, save = None\<rparr>, client = (None :: unit Client option)\<rparr>
      ''c.com'' '''' =
    Panics \<lparr>urls_proxy = \<lparr>urls = fmempty, save = None\<rparr>, client = None\<rparr> NilPointerDereference \<and>
   ProxyStore_Put
      \<lparr>urls_proxy = \<lparr>urls = fmupd ''0'' ''a.com'' fmempty, save = None\<rparr>,
       client = Some \<lparr>service = answers ''0'', peer = (), sent = []\<rparr>\<rparr> ''c.com'' ''''
    = Returns
      \<lparr>urls_proxy = \<lparr>urls = fmupd ''0'' ''a.com'' fmempty, save = None\<rparr>,
       client = Some \<lparr>service = answers ''0'', peer = (), sent = [(''Store.Put'', ''c.com'')]\<rparr>\<rparr>
      (''0'', None)"
  by (simp add: ProxyStore_Put_def Client_Call_def URLStore_Set_def answers_def Let_def)

text \<open>
  C7, amended. On a proxy whose client is not \<open>nil\<close>, \<open>Put v\<close> returns after sending
  exactly one call, \<open>Store.Put\<close> of \<open>v\<close>, whatever the cache holds. When the peer answers
  with a key, \<open>Put\<close> returns that key with no error, and the cache binds the key to \<open>v\<close>
  unless the key was cached already, in which case the cache is as it was. When the call
  fails, \<open>Put\<close> returns the error of the call, writes no key and leaves the cache as it was.
\<close>

theorem ProxyStore_Put_forwards:
  assumes "client s = Some c"
  shows "\<exists>s' res. ProxyStore_Put s v k0 = Returns s' res \<and>
           remote_calls s' = remote_calls s @ [(''Store.Put'', v)] \<and>
           (\<forall>k p. service c ''Store.Put'' v (peer c) = (Inr k, p) \<longrightarrow>
              res = (k, None) \<and>
              urls (urls_proxy s') =
                (case fmlookup (urls (urls_proxy s)) k of
                   Some old \<Rightarrow> urls (urls_proxy s)
                 | None \<Rightarrow> fmupd k v (urls (urls_proxy s)))) \<and>
           (\<forall>e p. service c ''Store.Put'' v (peer c) = (Inl e, p) \<longrightarrow>
              res = (k0, Some e) \<and> urls_proxy s' = urls_proxy s)"
proof -
  obtain res p where r: "service c ''Store.Put'' v (peer c) = (res, p)" by force
  show ?thesis
  proof (cases res)
    case (Inl err)
    with assms r ProxyStore_Put_connected [of s c v res p k0] show ?thesis
      by (simp add: remote_calls_def)
  next
    case (Inr k)
    with assms r ProxyStore_Put_connected [of s c v res p k0] show ?thesis
      by (simp add: remote_calls_def URLStore_Set_def split: option.splits)
  qed
qed

theorem ProxyStore_Put_forwards_witness:
  "(\<exists>s'. ProxyStore_Put
      \<lparr>urls_proxy = \<lparr>urls = fmupd ''1'' ''b.com'' fmempty, save = None\<rparr>,
       client = Some \<lparr>service = answers ''2'', peer = (), sent = []\<rparr>\<rparr> ''c.com'' ''''
      = Returns s' (''2'', None) \<and>
     remote_calls s' = [(''Store.Put'', ''c.com'')] \<and>
     urls (urls_proxy s') = fmupd ''2'' ''c.com'' (fmupd ''1'' ''b.com'' fmempty)) \<and>
   (\<exists>s'. ProxyStore_Put
      \<lparr>urls_proxy = \<lparr>urls = fmupd ''1'' ''b.com'' fmempty, save = None\<rparr>,
       client = Some \<lparr>service = refuses ErrShutdown, peer = (), sent = []\<rparr>\<rparr> ''c.com'' ''''
      = Returns s' ('''', Some ErrShutdown) \<and>
     remote_calls s' = [(''Store.Put'', ''c.com'')] \<and>
     urls_proxy s' = \<lparr>urls = fmupd ''1'' ''b.com'' fmempty, save = None\<rparr>)"
proof -
  let ?u = "\<lparr>urls = fmupd ''1'' ''b.com'' fmempty, save = None\<rparr>"
  let ?a = "\<lparr>service = answers ''2'', peer = (), sent = []\<rparr>"
  let ?r = "\<lparr>service = refuses ErrShutdown, peer = (), sent = []\<rparr>"
  have ca: "client \<lparr>urls_proxy = ?u, client = Some ?a\<rparr> = Some ?a" by simp
  have cr: "client \<lparr>urls_proxy = ?u, client = Some ?r\<rparr> = Some ?r" by simp
  have sa: "service ?a ''Store.Put'' ''c.com'' (peer ?a) = (Inr ''2'', ())"
    by (simp add: answers_def)
  have sr: "service ?r ''Store.Put'' ''c.com'' (peer ?r) = (Inl ErrShutdown, ())"
    by (simp add: refuses_def)
  from ProxyStore_Put_forwards [OF ca, of "''c.com''" "''''"]
  obtain s1 res1 where 1:
    "ProxyStore_Put \<lparr>urls_proxy = ?u, client = Some ?a\<rparr> ''c.com'' '''' = Returns s1 res1"
    "remote_calls s1 = remote_calls \<lparr>urls_proxy = ?u, client = Some ?a\<rparr> @ [(''Store.Put'', ''c.com'')]"
    "\<forall>k p. service ?a ''Store.Put'' ''c.com'' (peer ?a) = (Inr k, p) \<longrightarrow>
              res1 = (k, None) \<and>
              urls (urls_proxy s1) =
                (case fmlookup (urls (urls_proxy \<lparr>urls_proxy = ?u, client = Some ?a\<rparr>)) k of
                   Some old \<Rightarrow> urls (urls_proxy \<lparr>urls_proxy = ?u, client = Some ?a\<rparr>)
                 | None \<Rightarrow> fmupd k ''c.com'' (urls (urls_proxy \<lparr>urls_proxy = ?u, client = Some ?a\<rparr>)))"
    by blast
  from 1(3) sa have "res1 = (''2'', None) \<and>
      urls (urls_proxy s1) = fmupd ''2'' ''c.com'' (fmupd ''1'' ''b.com'' fmempty)"
    by force
  with 1(1,2) have A: "\<exists>s'. ProxyStore_Put \<lparr>urls_proxy = ?u, client = Some ?a\<rparr> ''c.com'' ''''
      = Returns s' (''2'', None) \<and>
     remote_calls s' = [(''Store.Put'', ''c.com'')] \<and>
     urls (urls_proxy s') = fmupd ''2'' ''c.com'' (fmupd ''1'' ''b.com'' fmempty)"
    by (auto simp: remote_calls_def)
  from ProxyStore_Put_forwards [OF cr, of "''c.com''" "''''"]
  obtain s2 res2 where 2:
    "ProxyStore_Put \<lparr>urls_proxy = ?u, client = Some ?r\<rparr> ''c.com'' '''' = Returns s2 res2"
    "remote_calls s2 = remote_calls \<lparr>urls_proxy = ?u, client = Some ?r\<rparr> @ [(''Store.Put'', ''c.com'')]"
    "\<forall>e p. service ?r ''Store.Put'' ''c.com'' (peer ?r) = (Inl e, p) \<longrightarrow>
              res2 = ('''', Some e) \<and>
              urls_proxy s2 = urls_proxy \<lparr>urls_proxy = ?u, client = Some ?r\<rparr>"
    by blast
  from 2(3) sr have "res2 = ('''', Some ErrShutdown) \<and> urls_proxy s2 = ?u"
    by force
  with 2(1,2) have B: "\<exists>s'. ProxyStore_Put \<lparr>urls_proxy = ?u, client = Some ?r\<rparr> ''c.com'' ''''
      = Returns s' ('''', Some ErrShutdown) \<and>
     remote_calls s' = [(''Store.Put'', ''c.com'')] \<and> urls_proxy s' = ?u"
    by (auto simp: remote_calls_def)
  from A B show ?thesis by blast
qed

text \<open>
  C10. \<open>NewProxyStore\<close> returns a proxy for every address. When the dial fails, the proxy
  it returns has a \<open>nil\<close> client and an empty cache, so every \<open>Get\<close> on it misses the cache,
  and both \<open>Get\<close> and \<open>Put\<close> panic on the nil client instead of returning an error.
\<close>

theorem NewProxyStore_failed_dial:
  assumes "fmlookup net addr = None"
  shows "client (NewProxyStore net fs addr) = None \<and>
         urls (urls_proxy (NewProxyStore net fs addr)) = fmempty \<and>
         ProxyStore_Get (NewProxyStore net fs addr) k u =
           Panics (NewProxyStore net fs addr) NilPointerDereference \<and>
         ProxyStore_Put (NewProxyStore net fs addr) v k0 =
           Panics (NewProxyStore net fs addr) NilPointerDereference"
  using assms
  by (simp add: NewProxyStore_def DialHTTP_def NewURLStore_empty ProxyStore_Get_def
      ProxyStore_Put_def URLStore_Get_def Client_Call_def)

theorem NewProxyStore_failed_dial_witness:
  "client (NewProxyStore (fmempty :: unit network) fmempty ''127.0.0.1:8081'') = None \<and>
   ProxyStore_Get (NewProxyStore (fmempty :: unit network) fmempty ''127.0.0.1:8081'') ''0'' '''' =
     Panics \<lparr>urls_proxy = \<lparr>urls = fmempty, save = None\<rparr>, client = None\<rparr> NilPointerDereference \<and>
   ProxyStore_Put (NewProxyStore (fmempty :: unit network) fmempty ''127.0.0.1:8081'') ''a.com'' '''' =
     Panics \<lparr>urls_proxy = \<lparr>urls = fmempty, save = None\<rparr>, client = None\<rparr> NilPointerDereference"
proof -
  have h: "fmlookup (fmempty :: unit network) ''127.0.0.1:8081'' = None" by simp
  have n: "NewProxyStore (fmempty :: unit network) fmempty ''127.0.0.1:8081''
     = \<lparr>urls_proxy = \<lparr>urls = fmempty, save = None\<rparr>, client = None\<rparr>"
    by (simp add: NewProxyStore_def DialHTTP_def NewURLStore_def)
  from NewProxyStore_failed_dial [OF h, of fmempty "''0''" "''''" "''a.com''" "''''"] n
  show ?thesis by simp
qed

end
